theory Spec2Isabelle
  imports Main "HOL-Library.AList" "HOL-Library.Char_ord" "HOL-Library.List_Lexorder"
    "HOL-Library.Sublist"
begin

section \<open>Paths\<close>

text \<open>
  A \<^verbatim>\<open>pathlib.Path\<close> on a POSIX host is its anchor and its list of components.
  pathlib keeps exactly two leading slashes as a root of its own, drops empty components
  and \<^verbatim>\<open>.\<close> components, and keeps \<^verbatim>\<open>..\<close>. Characters are the code points below 256.
\<close>

datatype anchor = Rel | Root | Root2

datatype path = Path (anchor: anchor) (parts: "string list")

fun split_sep :: "string \<Rightarrow> string list" where
  "split_sep [] = [[]]"
| "split_sep (c # cs) =
     (if c = CHR ''/'' then [] # split_sep cs
      else (case split_sep cs of [] \<Rightarrow> [[c]] | x # xs \<Rightarrow> (c # x) # xs))"

definition path_of :: "string \<Rightarrow> path" where
  "path_of s =
     Path (let n = length (takeWhile (\<lambda>c. c = CHR ''/'') s)
           in if n = 0 then Rel else if n = 2 then Root2 else Root)
          (filter (\<lambda>c. c \<noteq> [] \<and> c \<noteq> ''.'') (split_sep s))"

fun join_sep :: "string list \<Rightarrow> string" where
  "join_sep [] = []"
| "join_sep [x] = x"
| "join_sep (x # y # ys) = x @ ''/'' @ join_sep (y # ys)"

definition str :: "path \<Rightarrow> string" where
  "str p = (case anchor p of
              Rel \<Rightarrow> (if parts p = [] then ''.'' else join_sep (parts p))
            | Root \<Rightarrow> ''/'' @ join_sep (parts p)
            | Root2 \<Rightarrow> ''//'' @ join_sep (parts p))"

definition name :: "path \<Rightarrow> string" where
  "name p = (if parts p = [] then [] else last (parts p))"

definition parent :: "path \<Rightarrow> path" where
  "parent p = Path (anchor p) (butlast (parts p))"

definition joinpath :: "path \<Rightarrow> string \<Rightarrow> path" where
  "joinpath p s =
     (let q = path_of s
      in if anchor q \<noteq> Rel then q else Path (anchor p) (parts p @ parts q))"

section \<open>The file system\<close>

text \<open>
  The file system is a table from physical locations (component lists from the root, free
  of links) to entries. The root is always a directory. A file carries whether it may be
  read and its text, a directory whether it may be listed, a link the path it was given.
  Every directory may be searched, and one volume holds everything.
\<close>

datatype entry = File bool string | Dir bool | Link path

datatype exn =
    FileNotFoundError | NotADirectoryError | FileExistsError | IsADirectoryError
  | DirectoryNotEmpty | TooManyLinks | PermissionError | InvalidArgument
  | DeviceBusy | PrivilegeNotHeld | ShutilError | SymlinkLoop

text \<open>
  All of these are \<^verbatim>\<open>OSError\<close>s but the last, the \<^verbatim>\<open>RuntimeError\<close> that
  \<^verbatim>\<open>Path.resolve\<close> raises on a loop of links.
\<close>

definition is_OSError :: "exn \<Rightarrow> bool" where
  "is_OSError e = (e \<noteq> SymlinkLoop)"

definition exn_str :: "exn \<Rightarrow> string" where
  "exn_str e = (case e of
       FileNotFoundError \<Rightarrow> ''[Errno 2] No such file or directory''
     | NotADirectoryError \<Rightarrow> ''[Errno 20] Not a directory''
     | FileExistsError \<Rightarrow> ''[Errno 17] File exists''
     | IsADirectoryError \<Rightarrow> ''[Errno 21] Is a directory''
     | DirectoryNotEmpty \<Rightarrow> ''[Errno 39] Directory not empty''
     | TooManyLinks \<Rightarrow> ''[Errno 40] Too many levels of symbolic links''
     | PermissionError \<Rightarrow> ''[Errno 13] Permission denied''
     | InvalidArgument \<Rightarrow> ''[Errno 22] Invalid argument''
     | DeviceBusy \<Rightarrow> ''[Errno 16] Device or resource busy''
     | PrivilegeNotHeld \<Rightarrow> ''[WinError 1314] A required privilege is not held by the client''
     | ShutilError \<Rightarrow> ''Destination path already exists''
     | SymlinkLoop \<Rightarrow> ''Symlink loop'')"

datatype event =
    Log string
  | ShowWarning string string
  | ShowError string string
  | ShowInfo string string
  | AskYesNo string string bool

text \<open>
  What the process sees of its host: the table of entries, the working directory, the
  name \<^verbatim>\<open>platform.system()\<close> gives, whether the host lets this process create
  symbolic links, and what has been shown or logged so far.
\<close>

record world =
  ents :: "(string list \<times> entry) list"
  cwd :: "string list"
  platform :: string
  can_symlink :: bool
  events :: "event list"


definition node_at :: "(string list \<times> entry) list \<Rightarrow> string list \<Rightarrow> entry option" where
  "node_at es p = (if p = [] then Some (Dir True) else map_of es p)"

definition maxsymlinks :: nat where
  "maxsymlinks = 40"

text \<open>
  Path resolution as the kernel does it: from a physical directory, one component at a
  time, following at most \<^const>\<open>maxsymlinks\<close> links (a link that is not absolute
  is read from the directory that holds it). The result is the physical
  location reached and the entry there; the last component may be absent (its parent
  exists), and a link in last position is followed only on request.
\<close>

definition link_start :: "path \<Rightarrow> string list \<Rightarrow> string list" where
  "link_start t cur = (if anchor t = Rel then cur else [])"

function namei ::
  "(string list \<Rightarrow> entry option) \<Rightarrow> bool \<Rightarrow> nat \<Rightarrow> string list \<Rightarrow> string list
     \<Rightarrow> exn + (string list \<times> entry option)" where
  "namei look follow fuel cur [] =
     (case look cur of None \<Rightarrow> Inl FileNotFoundError | Some e \<Rightarrow> Inr (cur, Some e))"
| "namei look follow fuel cur (c # rest) =
     (case look cur of
        None \<Rightarrow> Inl FileNotFoundError
      | Some (Dir r) \<Rightarrow>
          (if c = ''..'' then namei look follow fuel (butlast cur) rest
           else (case look (cur @ [c]) of
                   None \<Rightarrow> (if rest = [] then Inr (cur @ [c], None) else Inl FileNotFoundError)
                 | Some (Link t) \<Rightarrow>
                     (if rest = [] \<and> \<not> follow then Inr (cur @ [c], Some (Link t))
                      else if fuel = 0 then Inl TooManyLinks
                      else namei look follow (fuel - 1)
                             (link_start t cur) (parts t @ rest))
                 | Some e \<Rightarrow> namei look follow fuel (cur @ [c]) rest))
      | Some e \<Rightarrow> Inl NotADirectoryError)"
  by pat_completeness auto
termination
  by (relation "measures [\<lambda>(look, follow, fuel, cur, rest). fuel,
                          \<lambda>(look, follow, fuel, cur, rest). length rest]") auto

definition start_dir :: "world \<Rightarrow> path \<Rightarrow> string list" where
  "start_dir w p = (if anchor p = Rel then cwd w else [])"

definition stat :: "world \<Rightarrow> path \<Rightarrow> exn + (string list \<times> entry option)" where
  "stat w p = namei (node_at (ents w)) True maxsymlinks (start_dir w p) (parts p)"

definition lstat :: "world \<Rightarrow> path \<Rightarrow> exn + (string list \<times> entry option)" where
  "lstat w p = namei (node_at (ents w)) False maxsymlinks (start_dir w p) (parts p)"

text \<open>
  \<^verbatim>\<open>Path.exists\<close>, \<^verbatim>\<open>is_dir\<close>, \<^verbatim>\<open>is_file\<close> and \<^verbatim>\<open>is_symlink\<close> answer
  False where the lookup fails.
\<close>

definition exists :: "world \<Rightarrow> path \<Rightarrow> bool" where
  "exists w p = (case stat w p of Inr (q, Some e) \<Rightarrow> True | _ \<Rightarrow> False)"

definition is_dir :: "world \<Rightarrow> path \<Rightarrow> bool" where
  "is_dir w p = (case stat w p of Inr (q, Some (Dir r)) \<Rightarrow> True | _ \<Rightarrow> False)"


definition is_symlink :: "world \<Rightarrow> path \<Rightarrow> bool" where
  "is_symlink w p = (case lstat w p of Inr (q, Some (Link t)) \<Rightarrow> True | _ \<Rightarrow> False)"

definition children :: "(string list \<times> entry) list \<Rightarrow> string list \<Rightarrow> string list" where
  "children es d = map last (filter (\<lambda>k. k \<noteq> [] \<and> butlast k = d) (map fst es))"

text \<open>\<^verbatim>\<open>Path.iterdir\<close>: the names in a directory, or the error of listing it.\<close>

definition iterdir :: "world \<Rightarrow> path \<Rightarrow> exn + path list" where
  "iterdir w p =
     (case stat w p of
        Inl e \<Rightarrow> Inl e
      | Inr (q, None) \<Rightarrow> Inl FileNotFoundError
      | Inr (q, Some (Dir r)) \<Rightarrow>
          (if r then Inr (map (\<lambda>n. Path (anchor p) (parts p @ [n])) (children (ents w) q))
           else Inl PermissionError)
      | Inr (q, Some e) \<Rightarrow> Inl NotADirectoryError)"

text \<open>
  \<^verbatim>\<open>Path.resolve\<close> without \<^verbatim>\<open>strict\<close>: links are followed, \<^verbatim>\<open>..\<close> drops
  the last component reached, and what does not exist is kept as written. A loop of
  links raises (as up to Python 3.12); the bound on links stands for the loop check.
\<close>

function realpath ::
  "(string list \<Rightarrow> entry option) \<Rightarrow> nat \<Rightarrow> string list \<Rightarrow> string list
     \<Rightarrow> exn + string list" where
  "realpath look fuel cur [] = Inr cur"
| "realpath look fuel cur (c # rest) =
     (if c = ''..'' then realpath look fuel (butlast cur) rest
      else (case (case look cur of Some (Dir r) \<Rightarrow> look (cur @ [c]) | _ \<Rightarrow> None) of
              Some (Link t) \<Rightarrow>
                (if fuel = 0 then Inl SymlinkLoop
                 else realpath look (fuel - 1)
                        (link_start t cur) (parts t @ rest))
            | _ \<Rightarrow> realpath look fuel (cur @ [c]) rest))"
  by pat_completeness auto
termination
  by (relation "measures [\<lambda>(look, fuel, cur, rest). fuel,
                          \<lambda>(look, fuel, cur, rest). length rest]") auto

definition resolve :: "world \<Rightarrow> path \<Rightarrow> exn + string list" where
  "resolve w p = realpath (node_at (ents w)) maxsymlinks (start_dir w p) (parts p)"


subsection \<open>Operations that change the table\<close>

definition os_mkdir :: "world \<Rightarrow> path \<Rightarrow> exn + world" where
  "os_mkdir w p =
     (case lstat w p of
        Inl e \<Rightarrow> Inl e
      | Inr (q, Some e) \<Rightarrow> Inl FileExistsError
      | Inr (q, None) \<Rightarrow> Inr (w\<lparr>ents := AList.update q (Dir True) (ents w)\<rparr>))"

text \<open>\<^verbatim>\<open>Path.mkdir(parents=True, exist_ok=True)\<close>, as pathlib writes it.\<close>

function mkdir_p :: "world \<Rightarrow> path \<Rightarrow> exn + world" where
  "mkdir_p w p =
     (case os_mkdir w p of
        Inr w' \<Rightarrow> Inr w'
      | Inl e \<Rightarrow>
          (if e = FileNotFoundError then
             (if parts p = [] then Inl e
              else (case mkdir_p w (parent p) of
                      Inl e' \<Rightarrow> Inl e'
                    | Inr w1 \<Rightarrow>
                        (case os_mkdir w1 p of
                           Inr w2 \<Rightarrow> Inr w2
                         | Inl e2 \<Rightarrow>
                             (if e2 = FileNotFoundError then Inl e2
                              else if is_dir w1 p then Inr w1 else Inl e2))))
           else if is_dir w p then Inr w else Inl e))"
  by pat_completeness auto
termination
  by (relation "measure (\<lambda>(w, p). length (parts p))") (auto simp: parent_def)

declare mkdir_p.simps [simp del]

definition os_unlink :: "world \<Rightarrow> path \<Rightarrow> exn + world" where
  "os_unlink w p =
     (case lstat w p of
        Inl e \<Rightarrow> Inl e
      | Inr (q, None) \<Rightarrow> Inl FileNotFoundError
      | Inr (q, Some (Dir r)) \<Rightarrow> Inl IsADirectoryError
      | Inr (q, Some e) \<Rightarrow> Inr (w\<lparr>ents := AList.delete q (ents w)\<rparr>))"

definition os_rmdir :: "world \<Rightarrow> path \<Rightarrow> exn + world" where
  "os_rmdir w p =
     (case lstat w p of
        Inl e \<Rightarrow> Inl e
      | Inr (q, None) \<Rightarrow> Inl FileNotFoundError
      | Inr (q, Some (Dir r)) \<Rightarrow>
          (if q = [] then Inl DeviceBusy
           else if children (ents w) q \<noteq> [] then Inl DirectoryNotEmpty
           else Inr (w\<lparr>ents := AList.delete q (ents w)\<rparr>))
      | Inr (q, Some e) \<Rightarrow> Inl NotADirectoryError)"

text \<open>
  \<^verbatim>\<open>os.symlink(target, link)\<close>. A host that refuses links answers with error 1314
  on Windows and with a permission error elsewhere.
\<close>

definition os_symlink :: "world \<Rightarrow> path \<Rightarrow> path \<Rightarrow> exn + world" where
  "os_symlink w target link =
     (if \<not> can_symlink w
      then Inl (if platform w = ''Windows'' then PrivilegeNotHeld else PermissionError)
      else (case lstat w link of
              Inl e \<Rightarrow> Inl e
            | Inr (q, Some e) \<Rightarrow> Inl FileExistsError
            | Inr (q, None) \<Rightarrow> Inr (w\<lparr>ents := AList.update q (Link target) (ents w)\<rparr>)))"

definition winerror :: "exn \<Rightarrow> nat" where
  "winerror e = (if e = PrivilegeNotHeld then 1314 else 0)"

definition rename_keys ::
  "string list \<Rightarrow> string list \<Rightarrow> (string list \<times> entry) list \<Rightarrow> (string list \<times> entry) list" where
  "rename_keys src dst es =
     map (\<lambda>(k, v). (if prefix src k then dst @ drop (length src) k else k, v)) es"

definition os_rename :: "world \<Rightarrow> path \<Rightarrow> path \<Rightarrow> exn + world" where
  "os_rename w src dst =
     (case lstat w src of
        Inl e \<Rightarrow> Inl e
      | Inr (qs, None) \<Rightarrow> Inl FileNotFoundError
      | Inr (qs, Some es) \<Rightarrow>
          (case lstat w dst of
             Inl e \<Rightarrow> Inl e
           | Inr (qd, eo) \<Rightarrow>
               (let moved = w\<lparr>ents := rename_keys qs qd (AList.delete qd (ents w))\<rparr>
                in if qs = qd then Inr w
                   else if qs = [] then Inl DeviceBusy
                   else if prefix qs qd then Inl InvalidArgument
                   else (case (es, eo) of
                           (Dir r, Some (Dir r')) \<Rightarrow>
                             (if children (ents w) qd \<noteq> [] then Inl DirectoryNotEmpty
                              else Inr moved)
                         | (Dir r, Some e) \<Rightarrow> Inl NotADirectoryError
                         | (e, Some (Dir r')) \<Rightarrow> Inl IsADirectoryError
                         | _ \<Rightarrow> Inr moved))))"

definition samefile :: "world \<Rightarrow> path \<Rightarrow> path \<Rightarrow> bool" where
  "samefile w a b =
     (case stat w a of
        Inr (qa, Some ea) \<Rightarrow> (case stat w b of Inr (qb, Some eb) \<Rightarrow> qa = qb | _ \<Rightarrow> False)
      | _ \<Rightarrow> False)"

text \<open>
  \<^verbatim>\<open>shutil.move\<close> on one volume: a destination that is a directory receives the
  source under its own name, and refuses when that name is taken; otherwise the source
  is renamed. The copy that \<^verbatim>\<open>shutil.move\<close> falls back to between volumes is not
  modelled: where the rename fails, the move fails.
\<close>

definition shutil_move :: "world \<Rightarrow> path \<Rightarrow> path \<Rightarrow> exn + world" where
  "shutil_move w src dst =
     (if is_dir w dst then
        (if samefile w src dst then os_rename w src dst
         else (let real_dst = joinpath dst (name src)
               in if exists w real_dst then Inl ShutilError else os_rename w src real_dst))
      else os_rename w src dst)"

text \<open>
  \<^verbatim>\<open>shutil.rmtree\<close>: refuses a link, removes a directory with all below it. Where a
  directory below cannot be listed it fails, and the model keeps the table as it was.
\<close>

definition rmtree :: "world \<Rightarrow> path \<Rightarrow> exn + world" where
  "rmtree w p =
     (case lstat w p of
        Inl e \<Rightarrow> Inl e
      | Inr (q, None) \<Rightarrow> Inl FileNotFoundError
      | Inr (q, Some (Dir r)) \<Rightarrow>
          (if q = [] then Inl DeviceBusy
           else if list_ex (\<lambda>(k, v). prefix q k \<and> v = Dir False) (ents w)
             then Inl PermissionError
           else Inr (w\<lparr>ents := filter (\<lambda>(k, v). \<not> prefix q k) (ents w)\<rparr>))
      | Inr (q, Some (Link t)) \<Rightarrow> Inl InvalidArgument
      | Inr (q, Some e) \<Rightarrow> Inl NotADirectoryError)"

section \<open>The helpers of the source\<close>


definition is_symlink_to :: "world \<Rightarrow> path \<Rightarrow> path \<Rightarrow> bool" where
  "is_symlink_to w p target =
     (if is_symlink w p then
        (case resolve w p of
           Inl e \<Rightarrow> False
         | Inr a \<Rightarrow> (case resolve w target of Inl e \<Rightarrow> False | Inr b \<Rightarrow> a = b))
      else False)"

definition ensure_dir :: "world \<Rightarrow> path \<Rightarrow> exn + world" where
  "ensure_dir w p = mkdir_p w p"

definition dir_is_empty :: "world \<Rightarrow> path \<Rightarrow> bool" where
  "dir_is_empty w p =
     (if \<not> exists w p then True
      else if \<not> is_dir w p then False
      else (case iterdir w p of Inr xs \<Rightarrow> xs = [] | Inl e \<Rightarrow> False))"

subsection \<open>Discovery\<close>












subsection \<open>Links and moves\<close>

definition nl :: string where
  "nl = [CHR 0x0A]"


text \<open>\<^verbatim>\<open>create_symlink_safe\<close>: the world after, whether it worked, the message.\<close>

definition create_symlink_safe :: "world \<Rightarrow> path \<Rightarrow> path \<Rightarrow> world \<times> bool \<times> string" where
  "create_symlink_safe w link_path target_path =
     (case os_symlink w target_path link_path of
        Inr w' \<Rightarrow>
          (w', True,
           ''Successfully created symlink: '' @ str link_path @ '' -> '' @ str target_path)
      | Inl e \<Rightarrow>
          (if is_OSError e then
             (if platform w = ''Windows'' \<and> winerror e = 1314 then
                (w, False,
                 ''Failed to create symlink due to insufficient privileges.'' @ nl @
                 ''To fix this, either:'' @ nl @
                 ''1. Run this application as Administrator, OR'' @ nl @
                 ''2. Enable Developer Mode in Windows Settings:'' @ nl @
                 ''   Settings > Update & Security > For developers > Developer Mode'' @ nl @ nl @
                 ''Target: '' @ str link_path @ '' -> '' @ str target_path)
              else
                (w, False,
                 ''Failed to create symlink: '' @ exn_str e @ nl @
                 ''Target: '' @ str link_path @ '' -> '' @ str target_path))
           else
             (w, False,
              ''Unexpected error creating symlink: '' @ exn_str e @ nl @
              ''Target: '' @ str link_path @ '' -> '' @ str target_path)))"

text \<open>
  \<^verbatim>\<open>move_dir_contents\<close>. The loop over the listing is \<open>move_items\<close>; a move that
  raises ends it, with what was moved before left moved.
\<close>

fun move_items :: "world \<Rightarrow> path list \<Rightarrow> path \<Rightarrow> world \<times> exn option" where
  "move_items w [] dst = (w, None)"
| "move_items w (item # items) dst =
     (case shutil_move w item (joinpath dst (name item)) of
        Inl e \<Rightarrow> (w, Some e)
      | Inr w' \<Rightarrow> move_items w' items dst)"

definition move_dir_contents :: "world \<Rightarrow> path \<Rightarrow> path \<Rightarrow> world \<times> exn option" where
  "move_dir_contents w src dst =
     (case ensure_dir w dst of
        Inl e \<Rightarrow> (w, Some e)
      | Inr w1 \<Rightarrow>
          (case iterdir w1 src of
             Inl e \<Rightarrow> (w1, Some e)
           | Inr items \<Rightarrow> move_items w1 items dst))"

section \<open>The application\<close>

text \<open>
  The person at the screen is a function from the title and the message of a question to
  the answer. Every dialog and every log line is recorded in \<^const>\<open>events\<close>.
\<close>

definition append_log :: "world \<Rightarrow> string \<Rightarrow> world" where
  "append_log w msg = w\<lparr>events := events w @ [Log msg]\<rparr>"


definition showerror :: "world \<Rightarrow> string \<Rightarrow> string \<Rightarrow> world" where
  "showerror w title msg = w\<lparr>events := events w @ [ShowError title msg]\<rparr>"


definition confirm :: "(string \<Rightarrow> string \<Rightarrow> bool) \<Rightarrow> world \<Rightarrow> string \<Rightarrow> string \<Rightarrow> bool \<times> world" where
  "confirm ask w title msg =
     (ask title msg, w\<lparr>events := events w @ [AskYesNo title msg (ask title msg)]\<rparr>)"

text \<open>
  The four places of \<^verbatim>\<open>_do_run\<close> that call \<^verbatim>\<open>create_symlink_safe\<close> and report:
  on success the log line with the given beginning, otherwise the error logged and shown.
\<close>

definition link_and_report :: "world \<Rightarrow> path \<Rightarrow> path \<Rightarrow> string \<Rightarrow> world" where
  "link_and_report w link_path target_path done =
     (case create_symlink_safe w link_path target_path of
        (w', success, message) \<Rightarrow>
          (if success then append_log w' (done @ str link_path @ '' -> '' @ str target_path)
           else showerror (append_log w' (''ERROR: '' @ message)) ''Symlink Error'' message))"

text \<open>
  The body of the loop of \<^verbatim>\<open>_do_run\<close> over the plan (lines 291 to 360), for one
  subdirectory name. The result is the world reached and the exception, if one was raised.
\<close>

definition link_step ::
  "(string \<Rightarrow> string \<Rightarrow> bool) \<Rightarrow> world \<Rightarrow> path \<Rightarrow> path \<Rightarrow> string \<Rightarrow> world \<times> exn option" where
  "link_step ask w steamapps target_root sub =
     (let link_path = joinpath steamapps sub;
          target_path = joinpath target_root sub
      in case ensure_dir w target_path of
           Inl e \<Rightarrow> (w, Some e)
         | Inr w1 \<Rightarrow>
             (if is_symlink w1 link_path then
                (if is_symlink_to w1 link_path target_path then
                   (append_log w1
                      (''OK: '' @ str link_path @ '' already links to '' @ str target_path), None)
                 else
                   (case confirm ask w1 ''Replace symlink''
                           (str link_path @ '' is a symlink to a different target. Replace it?'') of
                      (ok, w2) \<Rightarrow>
                        (if \<not> ok then
                           (append_log w2 (''Skipped replacing symlink: '' @ str link_path), None)
                         else
                           (case os_unlink w2 link_path of
                              Inl e \<Rightarrow> (w2, Some e)
                            | Inr w3 \<Rightarrow>
                                (link_and_report w3 link_path target_path
                                   ''Replaced symlink: '', None)))))
              else if exists w1 link_path then
                (if is_dir w1 link_path then
                   (if dir_is_empty w1 link_path then
                      (case os_rmdir w1 link_path of
                         Inl e \<Rightarrow> (w1, Some e)
                       | Inr w2 \<Rightarrow>
                           (link_and_report w2 link_path target_path
                              ''Linked (empty replaced): '', None))
                    else
                      (case confirm ask w1 ''Move contents?''
                              (str link_path @ '' is a non-empty directory. Move its contents to ''
                               @ str target_path @ '' and replace with a symlink?'') of
                         (ok, w2) \<Rightarrow>
                           (if \<not> ok then
                              (append_log w2
                                 (''Skipped: left existing directory: '' @ str link_path), None)
                            else
                              (case move_dir_contents w2 link_path target_path of
                                 (w3, Some e) \<Rightarrow> (w3, Some e)
                               | (w3, None) \<Rightarrow>
                                   (case (case os_rmdir w3 link_path of
                                            Inr w4 \<Rightarrow> Inr w4
                                          | Inl e \<Rightarrow>
                                              (if is_OSError e then rmtree w3 link_path
                                               else Inl e)) of
                                      Inl e \<Rightarrow> (w3, Some e)
                                    | Inr w4 \<Rightarrow>
                                        (link_and_report w4 link_path target_path
                                           ''Moved contents and linked: '', None))))))
                 else
                   (append_log
                      (showerror w1 ''Path exists and is not a directory'' (str link_path))
                      (''ERROR: Path exists and is not a directory: '' @ str link_path), None))
              else
                (link_and_report w1 link_path target_path ''Linked: '', None)))"


text \<open>
  Lines 269 to 279 of \<^verbatim>\<open>_do_run\<close>: the destination base and the destination root are
  made, and the plan is laid out. The result is the world reached and either the
  exception raised or the destination root with the plan.
\<close>








section \<open>The states of a link path\<close>

text \<open>
  The tests that the loop body makes on the link path, in its order, as the state they
  select.
\<close>

datatype path_state =
    Missing | SymlinkCorrect | SymlinkWrong | EmptyDirectory | NonEmptyDirectory
  | NonDirectoryFile

definition classify :: "world \<Rightarrow> path \<Rightarrow> path \<Rightarrow> path_state" where
  "classify w link_path target_path =
     (if is_symlink w link_path then
        (if is_symlink_to w link_path target_path then SymlinkCorrect else SymlinkWrong)
      else if exists w link_path then
        (if is_dir w link_path then
           (if dir_is_empty w link_path then EmptyDirectory else NonEmptyDirectory)
         else NonDirectoryFile)
      else Missing)"

text \<open>
  The states in the order of priority that the specification gives them. A link path
  exists when there is an entry at it, which a link whose target is gone still is.
\<close>

definition lexists :: "world \<Rightarrow> path \<Rightarrow> bool" where
  "lexists w p = (case lstat w p of Inr (q, Some e) \<Rightarrow> True | _ \<Rightarrow> False)"

definition classify_by_priority :: "world \<Rightarrow> path \<Rightarrow> path \<Rightarrow> path_state" where
  "classify_by_priority w link_path target_path =
     (if \<not> lexists w link_path then Missing
      else if is_symlink w link_path then
        (case resolve w link_path of
           Inl e \<Rightarrow> SymlinkWrong
         | Inr a \<Rightarrow>
             (case resolve w target_path of
                Inl e \<Rightarrow> SymlinkWrong
              | Inr b \<Rightarrow> (if a = b then SymlinkCorrect else SymlinkWrong)))
      else if is_dir w link_path then
        (if iterdir w link_path = Inr [] then EmptyDirectory else NonEmptyDirectory)
      else NonDirectoryFile)"

section \<open>The questions and the log line of the loop body\<close>

text \<open>
  The questions of lines 302 and 330 of the source and the log line of line 299, by name.
\<close>

definition replace_question :: "path \<Rightarrow> string" where
  "replace_question link_path =
     str link_path @ '' is a symlink to a different target. Replace it?''"

definition move_question :: "path \<Rightarrow> path \<Rightarrow> string" where
  "move_question link_path target_path =
     str link_path @ '' is a non-empty directory. Move its contents to ''
       @ str target_path @ '' and replace with a symlink?''"

definition already_msg :: "path \<Rightarrow> path \<Rightarrow> string" where
  "already_msg link_path target_path =
     ''OK: '' @ str link_path @ '' already links to '' @ str target_path"

section \<open>Occurrences of the path key\<close>



section \<open>Hosts for the examples\<close>



definition w_backwards :: world where
  "w_backwards = \<lparr>ents = [([''lib''], Dir True), ([''lib'', ''steamapps''], Dir True),
                 ([''lib'', ''steamapps'', ''downloading''], Dir True),
                 ([''ssd''], Dir True), ([''ssd'', ''lib_symlink''], Dir True),
                 ([''ssd'', ''lib_symlink'', ''downloading''],
                    Link (Path Root [''lib'', ''steamapps'', ''downloading'']))],
          cwd = [], platform = ''Linux'', can_symlink = True, events = []\<rparr>"

definition w_linked :: world where
  "w_linked = \<lparr>ents = [([''lib''], Dir True), ([''lib'', ''steamapps''], Dir True),
                 ([''lib'', ''steamapps'', ''downloading''],
                    Link (Path Root [''ssd'', ''lib_symlink'', ''downloading''])),
                 ([''ssd''], Dir True), ([''ssd'', ''lib_symlink''], Dir True),
                 ([''ssd'', ''lib_symlink'', ''downloading''], Dir True)],
          cwd = [], platform = ''Linux'', can_symlink = True, events = []\<rparr>"

definition w_dangling :: world where
  "w_dangling = \<lparr>ents = [([''lib''], Dir True), ([''lib'', ''steamapps''], Dir True),
                 ([''lib'', ''steamapps'', ''downloading''],
                    Link (Path Root [''ssd'', ''lib_symlink'', ''downloading''])),
                 ([''ssd''], Dir True), ([''ssd'', ''lib_symlink''], Dir True)],
          cwd = [], platform = ''Linux'', can_symlink = True, events = []\<rparr>"

definition w_elsewhere :: world where
  "w_elsewhere = \<lparr>ents = [([''lib''], Dir True), ([''lib'', ''steamapps''], Dir True),
                 ([''lib'', ''steamapps'', ''downloading''], Link (Path Root [''old''])),
                 ([''old''], Dir True),
                 ([''ssd''], Dir True), ([''ssd'', ''lib_symlink''], Dir True)],
          cwd = [], platform = ''Linux'', can_symlink = True, events = []\<rparr>"

definition w_elsewhere_ready :: world where
  "w_elsewhere_ready =
     w_elsewhere\<lparr>ents := ents w_elsewhere @ [([''ssd'', ''lib_symlink'', ''downloading''], Dir True)]\<rparr>"

definition w_blocked :: world where
  "w_blocked = \<lparr>ents = [([''lib''], Dir True), ([''lib'', ''steamapps''], Dir True),
                 ([''ssd''], Dir True), ([''ssd'', ''lib_symlink''], Dir True),
                 ([''ssd'', ''lib_symlink'', ''downloading''], File True ''notes'')],
          cwd = [], platform = ''Linux'', can_symlink = True, events = []\<rparr>"

definition w_fresh :: world where
  "w_fresh = \<lparr>ents = [([''lib''], Dir True), ([''lib'', ''steamapps''], Dir True),
                 ([''ssd''], Dir True), ([''ssd'', ''lib_symlink''], Dir True)],
          cwd = [], platform = ''Linux'', can_symlink = True, events = []\<rparr>"

definition w_fresh_ready :: world where
  "w_fresh_ready =
     w_fresh\<lparr>ents := ents w_fresh @ [([''ssd'', ''lib_symlink'', ''downloading''], Dir True)]\<rparr>"







section \<open>What the dialogs and the log leave alone\<close>

lemma stat_events [simp]: "stat (w\<lparr>events := ev\<rparr>) p = stat w p"
  by (simp add: stat_def start_dir_def)

lemma lstat_events [simp]: "lstat (w\<lparr>events := ev\<rparr>) p = lstat w p"
  by (simp add: lstat_def start_dir_def)

lemma exists_events [simp]: "exists (w\<lparr>events := ev\<rparr>) p = exists w p"
  by (simp add: exists_def)

lemma is_dir_events [simp]: "is_dir (w\<lparr>events := ev\<rparr>) p = is_dir w p"
  by (simp add: is_dir_def)

section \<open>An invalid source\<close>



lemma is_symlink_events [simp]: "is_symlink (w\<lparr>events := ev\<rparr>) p = is_symlink w p"
  by (simp add: is_symlink_def)

lemma iterdir_events [simp]: "iterdir (w\<lparr>events := ev\<rparr>) p = iterdir w p"
  by (auto simp: iterdir_def split: sum.splits prod.splits option.splits entry.splits)

lemma is_dir_exists: "is_dir w p \<Longrightarrow> exists w p"
  by (auto simp: is_dir_def exists_def split: sum.splits prod.splits option.splits entry.splits)

section \<open>The classification of the link path\<close>

lemma namei_follow_or_link:
  "f \<Longrightarrow> (\<exists>q t. namei look False fuel cur ps = Inr (q, Some (Link t))) \<or>
     namei look f fuel cur ps = namei look False fuel cur ps"
proof (induction look f fuel cur ps rule: namei.induct)
  case (1 look follow fuel cur)
  then show ?case by simp
next
  case (2 look follow fuel cur c rest)
  show ?case
  proof (cases "look cur")
    case None
    then show ?thesis by simp
  next
    case (Some e)
    show ?thesis
    proof (cases e)
      case (Dir r)
      show ?thesis
      proof (cases "c = ''..''")
        case True
        with 2 Some Dir show ?thesis by simp
      next
        case False
        show ?thesis
        proof (cases "look (cur @ [c])")
          case None
          with Some Dir False show ?thesis by simp
        next
          case inner: (Some e')
          show ?thesis
          proof (cases e')
            case (Link t)
            show ?thesis
            proof (cases "rest = []")
              case True
              with Some Dir False inner Link show ?thesis by simp
            next
              case nonempty: False
              show ?thesis
              proof (cases "fuel = 0")
                case True
                with Some Dir False inner Link nonempty show ?thesis by simp
              next
                case pos: False
                with 2 Some Dir False inner Link nonempty pos show ?thesis by simp
              qed
            qed
          next
            case (File r' body)
            with 2 Some Dir False inner show ?thesis by simp
          next
            case d: (Dir r')
            with 2 Some Dir False inner show ?thesis by simp
          qed
        qed
      qed
    next
      case (File r body)
      with Some show ?thesis by simp
    next
      case (Link t)
      with Some show ?thesis by simp
    qed
  qed
qed

lemma stat_eq_lstat: "\<not> is_symlink w p \<Longrightarrow> stat w p = lstat w p"
  using namei_follow_or_link [of True "node_at (ents w)" maxsymlinks "start_dir w p" "parts p"]
  by (auto simp: is_symlink_def stat_def lstat_def)

lemma exists_lexists: "\<not> is_symlink w p \<Longrightarrow> exists w p = lexists w p"
  by (simp add: exists_def lexists_def stat_eq_lstat)

lemma is_symlink_lexists: "is_symlink w p \<Longrightarrow> lexists w p"
  by (auto simp: is_symlink_def lexists_def split: sum.splits option.splits entry.splits)

text \<open>
  C1, as amended. The tests of the loop body select the state that the order of priority
  gives: nothing at the link path is \<^const>\<open>Missing\<close>; a symbolic link is
  \<^const>\<open>SymlinkCorrect\<close> when both paths resolve to the same location and
  \<^const>\<open>SymlinkWrong\<close> when they differ or a resolution fails; a directory is
  \<^const>\<open>EmptyDirectory\<close> when its listing succeeds and is empty and
  \<^const>\<open>NonEmptyDirectory\<close> otherwise; anything else is \<^const>\<open>NonDirectoryFile\<close>.
  The state is \<^const>\<open>SymlinkCorrect\<close> if and only if the link path is a symbolic link
  and both resolutions succeed with the same result.
\<close>

theorem classify_priority_order:
  "classify w link_path target_path = classify_by_priority w link_path target_path \<and>
   (classify w link_path target_path = SymlinkCorrect \<longleftrightarrow>
      is_symlink w link_path \<and>
      (\<exists>c. resolve w link_path = Inr c \<and> resolve w target_path = Inr c))"
proof (cases "is_symlink w link_path")
  case True
  then show ?thesis
    by (auto simp: classify_def classify_by_priority_def is_symlink_lexists is_symlink_to_def
        split: sum.splits)
next
  case False
  then show ?thesis
    by (auto simp: classify_def classify_by_priority_def exists_lexists dir_is_empty_def
        dest: is_dir_exists split: sum.splits)
qed

theorem classify_priority_order_witness:
  "classify w_linked (path_of ''/lib/steamapps/downloading'')
      (path_of ''/ssd/lib_symlink/downloading'') = SymlinkCorrect \<and>
   classify_by_priority w_linked (path_of ''/lib/steamapps/downloading'')
      (path_of ''/ssd/lib_symlink/downloading'') = SymlinkCorrect \<and>
   is_symlink w_linked (path_of ''/lib/steamapps/downloading'') \<and>
   resolve w_linked (path_of ''/lib/steamapps/downloading'') =
     Inr [''ssd'', ''lib_symlink'', ''downloading''] \<and>
   resolve w_linked (path_of ''/ssd/lib_symlink/downloading'') =
     Inr [''ssd'', ''lib_symlink'', ''downloading'']"
proof -
  have a: "is_symlink w_linked (path_of ''/lib/steamapps/downloading'')"
    "resolve w_linked (path_of ''/lib/steamapps/downloading'') =
       Inr [''ssd'', ''lib_symlink'', ''downloading'']"
    "resolve w_linked (path_of ''/ssd/lib_symlink/downloading'') =
       Inr [''ssd'', ''lib_symlink'', ''downloading'']"
    by code_simp+
  from a classify_priority_order [of w_linked "path_of ''/lib/steamapps/downloading''"
      "path_of ''/ssd/lib_symlink/downloading''"]
  show ?thesis by auto
qed

text \<open>
  C1 as stated fails: here the link path is a directory and the target path a symbolic
  link to it, so that both resolve to the same location, and the state is not
  \<^const>\<open>SymlinkCorrect\<close>.
\<close>

theorem symlink_correct_iff_counterexample:
  "resolve w_backwards (path_of ''/lib/steamapps/downloading'') =
     Inr [''lib'', ''steamapps'', ''downloading''] \<and>
   resolve w_backwards (path_of ''/ssd/lib_symlink/downloading'') =
     Inr [''lib'', ''steamapps'', ''downloading''] \<and>
   classify w_backwards (path_of ''/lib/steamapps/downloading'')
      (path_of ''/ssd/lib_symlink/downloading'') = EmptyDirectory"
  by code_simp

section \<open>Making directories\<close>

lemma namei_absent_look:
  "namei look f fuel cur ps = Inr (q, None) \<Longrightarrow> look q = None"
proof (induction look f fuel cur ps rule: namei.induct)
  case (1 look follow fuel cur)
  then show ?case by (simp split: option.splits)
next
  case (2 look follow fuel cur c rest)
  then show ?case
    by (simp split: option.splits entry.splits if_splits)
qed

lemma namei_create:
  assumes "namei look f fuel cur ps = Inr (q, None)"
    and "\<not> f"
    and "\<And>p. p \<noteq> q \<Longrightarrow> look' p = look p"
    and "look' q = Some e"
    and "\<And>t. e \<noteq> Link t"
  shows "namei look' f' fuel cur ps = Inr (q, Some e)"
  using assms
proof (induction look f fuel cur ps rule: namei.induct)
  case (1 look follow fuel cur)
  then show ?case by (simp split: option.splits)
next
  case (2 look follow fuel cur c rest)
  from "2.prems"(1) have qn: "look q = None" by (rule namei_absent_look)
  have same: "look x = Some y \<Longrightarrow> look' x = Some y" for x y
    using qn "2.prems"(3) [of x] by (cases "x = q") auto
  show ?case
  proof (cases "look cur")
    case None
    with "2.prems" show ?thesis by simp
  next
    case (Some d)
    show ?thesis
    proof (cases d)
      case (Dir r)
      note cur' = same [OF Some]
      show ?thesis
      proof (cases "c = ''..''")
        case True
        with 2 Some Dir cur' show ?thesis by simp
      next
        case False
        show ?thesis
        proof (cases "look (cur @ [c])")
          case None
          with "2.prems" Some Dir False have r: "rest = []" "q = cur @ [c]"
            by (auto split: if_splits)
          with "2.prems" Some Dir False cur' show ?thesis
            by (cases e) auto
        next
          case inner: (Some e')
          note inner' = same [OF inner]
          show ?thesis
          proof (cases e')
            case (Link t)
            with 2 Some Dir False inner inner' cur' show ?thesis
              by (simp split: if_splits)
          next
            case (File r' body)
            with 2 Some Dir False inner inner' cur' show ?thesis by simp
          next
            case d: (Dir r')
            with 2 Some Dir False inner inner' cur' show ?thesis by simp
          qed
        qed
      qed
    next
      case (File r body)
      with Some "2.prems" show ?thesis by simp
    next
      case (Link t)
      with Some "2.prems" show ?thesis by simp
    qed
  qed
qed


lemma namei_mono:
  assumes "namei look f fuel cur ps = Inr (q, Some e)"
    and "\<And>x y. look x = Some y \<Longrightarrow> look' x = Some y"
  shows "namei look' f fuel cur ps = Inr (q, Some e)"
  using assms
proof (induction look f fuel cur ps rule: namei.induct)
  case (1 look follow fuel cur)
  then show ?case by (auto split: option.splits)
next
  case (2 look follow fuel cur c rest)
  note same = "2.prems"(2)
  show ?case
  proof (cases "look cur")
    case None
    with "2.prems" show ?thesis by simp
  next
    case (Some d)
    show ?thesis
    proof (cases d)
      case (Dir r)
      note cur' = same [OF Some]
      show ?thesis
      proof (cases "c = ''..''")
        case True
        with 2 Some Dir cur' show ?thesis by simp
      next
        case False
        show ?thesis
        proof (cases "look (cur @ [c])")
          case None
          with "2.prems" Some Dir False show ?thesis
            by (auto split: if_splits)
        next
          case inner: (Some e')
          note inner' = same [OF inner]
          show ?thesis
          proof (cases e')
            case (Link t)
            with 2 Some Dir False inner inner' cur' show ?thesis
              by (cases "rest = [] \<and> \<not> follow") (auto split: if_splits)
          next
            case (File r' body)
            with 2 Some Dir False inner inner' cur' show ?thesis by simp
          next
            case d: (Dir r')
            with 2 Some Dir False inner inner' cur' show ?thesis by simp
          qed
        qed
      qed
    next
      case (File r body)
      with Some "2.prems" show ?thesis by simp
    next
      case (Link t)
      with Some "2.prems" show ?thesis by simp
    qed
  qed
qed

lemma node_at_root [simp]: "node_at es [] = Some (Dir True)"
  by (simp add: node_at_def)

lemma node_at_update:
  "node_at (AList.update q v es) p = (if p = [] then Some (Dir True) else if p = q then Some v else node_at es p)"
  by (simp add: node_at_def update_conv')



lemma os_mkdir_is_dir:
  assumes "os_mkdir w p = Inr w'"
  shows "is_dir w' p"
proof -
  from assms obtain q where l: "lstat w p = Inr (q, None)"
    and w': "w' = w\<lparr>ents := AList.update q (Dir True) (ents w)\<rparr>"
    by (auto simp: os_mkdir_def split: sum.splits prod.splits option.splits)
  from l have qn: "node_at (ents w) q = None"
    unfolding lstat_def by (rule namei_absent_look)
  then have q: "q \<noteq> []" by (auto simp: node_at_def)
  have "namei (node_at (ents w')) True maxsymlinks (start_dir w p) (parts p) =
          Inr (q, Some (Dir True))"
  proof (rule namei_create [where f = False and look = "node_at (ents w)"])
    show "namei (node_at (ents w)) False maxsymlinks (start_dir w p) (parts p) = Inr (q, None)"
      using l by (simp add: lstat_def)
  qed (use w' q in \<open>auto simp: node_at_update\<close>)
  moreover have "start_dir w' p = start_dir w p"
    using w' by (simp add: start_dir_def)
  ultimately show ?thesis
    by (simp add: is_dir_def stat_def)
qed

lemma is_dir_mkdir_p: "is_dir w p \<Longrightarrow> mkdir_p w p = Inr w"
proof -
  assume d: "is_dir w p"
  then obtain q r where s: "stat w p = Inr (q, Some (Dir r))"
    by (auto simp: is_dir_def split: sum.splits prod.splits option.splits entry.splits)
  from namei_follow_or_link [OF TrueI, of "node_at (ents w)" maxsymlinks "start_dir w p" "parts p"] s
  have "\<exists>q e. lstat w p = Inr (q, Some e)"
    unfolding stat_def lstat_def by (elim disjE exE) simp_all
  then have "os_mkdir w p = Inl FileExistsError"
    by (auto simp: os_mkdir_def)
  with d show ?thesis by (simp add: mkdir_p.simps)
qed


lemma mkdir_p_is_dir: "mkdir_p w p = Inr w' \<Longrightarrow> is_dir w' p"
proof (induction w p arbitrary: w' rule: mkdir_p.induct)
  case (1 w p)
  from "1.prems" show ?case
    apply (subst (asm) mkdir_p.simps)
    apply (auto split: sum.splits if_splits dest: os_mkdir_is_dir)
    done
qed


section \<open>A link that is already right, and a declined question\<close>

lemma resolve_events [simp]: "resolve (w\<lparr>events := ev\<rparr>) p = resolve w p"
  by (simp add: resolve_def start_dir_def)

lemma is_symlink_to_events [simp]:
  "is_symlink_to (w\<lparr>events := ev\<rparr>) p t = is_symlink_to w p t"
  by (simp add: is_symlink_to_def cong: sum.case_cong)

lemma dir_is_empty_events [simp]:
  "dir_is_empty (w\<lparr>events := ev\<rparr>) p = dir_is_empty w p"
  by (simp add: dir_is_empty_def)

lemma classify_events [simp]:
  "classify (w\<lparr>events := ev\<rparr>) p t = classify w p t"
  by (simp add: classify_def)

lemma ensure_dir_events:
  "is_dir w p \<Longrightarrow> ensure_dir (w\<lparr>events := ev\<rparr>) p = Inr (w\<lparr>events := ev\<rparr>)"
  by (simp add: ensure_dir_def is_dir_mkdir_p)

text \<open>
  C4, as amended. When the link path, once the destination subdirectory has been ensured,
  is a symbolic link that resolves to the target path, the step does nothing more to the
  file system, asks nothing, and logs that the path already links to the target; a second
  run from the state reached does the same and changes nothing. When the destination
  subdirectory was a directory before, ensuring it changed nothing either.
\<close>

theorem already_linked_idempotent:
  assumes "ensure_dir w (joinpath target_root sub) = Inr w1"
    and "classify w1 (joinpath steamapps sub) (joinpath target_root sub) = SymlinkCorrect"
  shows "link_step ask w steamapps target_root sub =
           (append_log w1 (already_msg (joinpath steamapps sub) (joinpath target_root sub)), None) \<and>
         link_step ask
             (append_log w1 (already_msg (joinpath steamapps sub) (joinpath target_root sub)))
             steamapps target_root sub =
           (append_log
              (append_log w1 (already_msg (joinpath steamapps sub) (joinpath target_root sub)))
              (already_msg (joinpath steamapps sub) (joinpath target_root sub)), None) \<and>
         (is_dir w (joinpath target_root sub) \<longrightarrow> w1 = w)"
proof -
  let ?l = "joinpath steamapps sub" and ?t = "joinpath target_root sub"
  from assms(2) have c: "is_symlink w1 ?l" "is_symlink_to w1 ?l ?t"
    by (auto simp: classify_def split: if_splits)
  from assms(1) have d: "is_dir w1 ?t"
    by (simp add: ensure_dir_def mkdir_p_is_dir)
  have one: "link_step ask w steamapps target_root sub = (append_log w1 (already_msg ?l ?t), None)"
    using assms(1) c by (simp add: link_step_def Let_def already_msg_def)
  have two: "link_step ask (append_log w1 (already_msg ?l ?t)) steamapps target_root sub =
      (append_log (append_log w1 (already_msg ?l ?t)) (already_msg ?l ?t), None)"
    using c ensure_dir_events [OF d]
    by (simp add: link_step_def Let_def already_msg_def append_log_def)
  have three: "is_dir w ?t \<longrightarrow> w1 = w"
    using assms(1) by (auto simp: ensure_dir_def is_dir_mkdir_p)
  from one two three show ?thesis by simp
qed

theorem already_linked_idempotent_witness:
  "ensure_dir w_linked (joinpath (path_of ''/ssd/lib_symlink'') ''downloading'') = Inr w_linked \<and>
   classify w_linked (joinpath (path_of ''/lib/steamapps'') ''downloading'')
      (joinpath (path_of ''/ssd/lib_symlink'') ''downloading'') = SymlinkCorrect \<and>
   link_step (\<lambda>t m. True) w_linked (path_of ''/lib/steamapps'') (path_of ''/ssd/lib_symlink'')
      ''downloading'' =
     (w_linked\<lparr>events :=
        [Log ''OK: /lib/steamapps/downloading already links to /ssd/lib_symlink/downloading'']\<rparr>,
      None)"
proof -
  have a: "ensure_dir w_linked (joinpath (path_of ''/ssd/lib_symlink'') ''downloading'') = Inr w_linked"
    "classify w_linked (joinpath (path_of ''/lib/steamapps'') ''downloading'')
      (joinpath (path_of ''/ssd/lib_symlink'') ''downloading'') = SymlinkCorrect"
    by code_simp+
  have m: "append_log w_linked (already_msg (joinpath (path_of ''/lib/steamapps'') ''downloading'')
      (joinpath (path_of ''/ssd/lib_symlink'') ''downloading'')) =
     w_linked\<lparr>events :=
        [Log ''OK: /lib/steamapps/downloading already links to /ssd/lib_symlink/downloading'']\<rparr>"
    by code_simp
  from already_linked_idempotent [OF a, of "\<lambda>t m. True"] a m show ?thesis by simp
qed

text \<open>
  C4 as stated fails: a link that points at the target path, while the target path does
  not exist yet, is classified \<^const>\<open>SymlinkCorrect\<close>, and the step makes the
  destination subdirectory before it logs that the link is in place.
\<close>

theorem already_linked_mutation_counterexample:
  "classify w_dangling (joinpath (path_of ''/lib/steamapps'') ''downloading'')
      (joinpath (path_of ''/ssd/lib_symlink'') ''downloading'') = SymlinkCorrect \<and>
   ents (fst (link_step (\<lambda>t m. True) w_dangling (path_of ''/lib/steamapps'')
                (path_of ''/ssd/lib_symlink'') ''downloading'')) =
     ents w_dangling @ [([''ssd'', ''lib_symlink'', ''downloading''], Dir True)] \<and>
   events (fst (link_step (\<lambda>t m. True) w_dangling (path_of ''/lib/steamapps'')
                (path_of ''/ssd/lib_symlink'') ''downloading'')) =
     [Log ''OK: /lib/steamapps/downloading already links to /ssd/lib_symlink/downloading'']"
  by code_simp

text \<open>
  C5, as amended. When the destination subdirectory has been ensured and the link path is
  then a symbolic link to another target, or a directory that is not empty, a declined
  question ends the step with the file system as it was when the question was asked, the
  question and the skip recorded: nothing but ensuring the destination subdirectory comes
  before the question, and that changes nothing when the subdirectory was there.
\<close>

theorem declined_no_mutation:
  assumes "ensure_dir w (joinpath target_root sub) = Inr w1"
  shows "(classify w1 (joinpath steamapps sub) (joinpath target_root sub) = SymlinkWrong \<and>
          \<not> ask ''Replace symlink'' (replace_question (joinpath steamapps sub)) \<longrightarrow>
            link_step ask w steamapps target_root sub =
              (w1\<lparr>events := events w1 @
                  [AskYesNo ''Replace symlink'' (replace_question (joinpath steamapps sub)) False,
                   Log (''Skipped replacing symlink: '' @ str (joinpath steamapps sub))]\<rparr>,
               None)) \<and>
         (classify w1 (joinpath steamapps sub) (joinpath target_root sub) = NonEmptyDirectory \<and>
          \<not> ask ''Move contents?''
               (move_question (joinpath steamapps sub) (joinpath target_root sub)) \<longrightarrow>
            link_step ask w steamapps target_root sub =
              (w1\<lparr>events := events w1 @
                  [AskYesNo ''Move contents?''
                     (move_question (joinpath steamapps sub) (joinpath target_root sub)) False,
                   Log (''Skipped: left existing directory: '' @ str (joinpath steamapps sub))]\<rparr>,
               None)) \<and>
         (is_dir w (joinpath target_root sub) \<longrightarrow> w1 = w)"
proof (intro conjI impI)
  assume "classify w1 (joinpath steamapps sub) (joinpath target_root sub) = SymlinkWrong \<and>
          \<not> ask ''Replace symlink'' (replace_question (joinpath steamapps sub))"
  then show "link_step ask w steamapps target_root sub =
              (w1\<lparr>events := events w1 @
                  [AskYesNo ''Replace symlink'' (replace_question (joinpath steamapps sub)) False,
                   Log (''Skipped replacing symlink: '' @ str (joinpath steamapps sub))]\<rparr>,
               None)"
    using assms
    by (auto simp: classify_def link_step_def Let_def confirm_def append_log_def
        replace_question_def split: if_splits)
next
  assume "classify w1 (joinpath steamapps sub) (joinpath target_root sub) = NonEmptyDirectory \<and>
          \<not> ask ''Move contents?''
               (move_question (joinpath steamapps sub) (joinpath target_root sub))"
  then show "link_step ask w steamapps target_root sub =
              (w1\<lparr>events := events w1 @
                  [AskYesNo ''Move contents?''
                     (move_question (joinpath steamapps sub) (joinpath target_root sub)) False,
                   Log (''Skipped: left existing directory: '' @ str (joinpath steamapps sub))]\<rparr>,
               None)"
    using assms
    by (auto simp: classify_def link_step_def Let_def confirm_def append_log_def
        move_question_def split: if_splits)
next
  assume "is_dir w (joinpath target_root sub)"
  with assms show "w1 = w"
    by (auto simp: ensure_dir_def is_dir_mkdir_p)
qed

theorem declined_no_mutation_witness:
  "ensure_dir w_elsewhere (joinpath (path_of ''/ssd/lib_symlink'') ''downloading'') =
     Inr w_elsewhere_ready \<and>
   classify w_elsewhere_ready (joinpath (path_of ''/lib/steamapps'') ''downloading'')
      (joinpath (path_of ''/ssd/lib_symlink'') ''downloading'') = SymlinkWrong \<and>
   link_step (\<lambda>t m. False) w_elsewhere (path_of ''/lib/steamapps'') (path_of ''/ssd/lib_symlink'')
      ''downloading'' =
     (w_elsewhere_ready\<lparr>events :=
        [AskYesNo ''Replace symlink''
           ''/lib/steamapps/downloading is a symlink to a different target. Replace it?'' False,
         Log ''Skipped replacing symlink: /lib/steamapps/downloading'']\<rparr>,
      None)"
proof -
  have a: "ensure_dir w_elsewhere (joinpath (path_of ''/ssd/lib_symlink'') ''downloading'') =
     Inr w_elsewhere_ready"
    by code_simp
  have b: "classify w_elsewhere_ready (joinpath (path_of ''/lib/steamapps'') ''downloading'')
      (joinpath (path_of ''/ssd/lib_symlink'') ''downloading'') = SymlinkWrong"
    by code_simp
  have m: "replace_question (joinpath (path_of ''/lib/steamapps'') ''downloading'') =
      ''/lib/steamapps/downloading is a symlink to a different target. Replace it?''"
    "str (joinpath (path_of ''/lib/steamapps'') ''downloading'') = ''/lib/steamapps/downloading''"
    "events w_elsewhere_ready = []"
    by code_simp+
  from declined_no_mutation [OF a, of "path_of ''/lib/steamapps''" "\<lambda>t m. False"] a b m
  show ?thesis by simp
qed

text \<open>
  C5 as stated fails: with the destination subdirectory absent, the link to another
  target is left alone when the person declines, but the destination subdirectory has
  been made before the question.
\<close>

theorem declined_mutation_counterexample:
  "classify w_elsewhere (joinpath (path_of ''/lib/steamapps'') ''downloading'')
      (joinpath (path_of ''/ssd/lib_symlink'') ''downloading'') = SymlinkWrong \<and>
   events (fst (link_step (\<lambda>t m. False) w_elsewhere (path_of ''/lib/steamapps'')
                (path_of ''/ssd/lib_symlink'') ''downloading'')) =
     [AskYesNo ''Replace symlink''
        ''/lib/steamapps/downloading is a symlink to a different target. Replace it?'' False,
      Log ''Skipped replacing symlink: /lib/steamapps/downloading''] \<and>
   ents (fst (link_step (\<lambda>t m. False) w_elsewhere (path_of ''/lib/steamapps'')
                (path_of ''/ssd/lib_symlink'') ''downloading'')) =
     ents w_elsewhere @ [([''ssd'', ''lib_symlink'', ''downloading''], Dir True)]"
  by code_simp

section \<open>The destination subdirectory\<close>

lemma is_dir_mono:
  assumes "is_dir w p"
    and "\<And>x y. node_at (ents w) x = Some y \<Longrightarrow> node_at (ents w') x = Some y"
    and "cwd w' = cwd w"
  shows "is_dir w' p"
proof -
  from assms(1) obtain q r where s: "stat w p = Inr (q, Some (Dir r))"
    by (auto simp: is_dir_def split: sum.splits prod.splits option.splits entry.splits)
  then have "namei (node_at (ents w)) True maxsymlinks (start_dir w p) (parts p) =
      Inr (q, Some (Dir r))"
    by (simp add: stat_def)
  from namei_mono [OF this, of "node_at (ents w')"] assms(2)
  have "namei (node_at (ents w')) True maxsymlinks (start_dir w p) (parts p) =
      Inr (q, Some (Dir r))"
    by blast
  moreover have "start_dir w' p = start_dir w p"
    using assms(3) by (simp add: start_dir_def)
  ultimately have "stat w' p = Inr (q, Some (Dir r))"
    by (simp add: stat_def)
  then show ?thesis by (simp add: is_dir_def)
qed

lemma os_symlink_look:
  assumes "os_symlink w t l = Inr w'" and "node_at (ents w) x = Some y"
  shows "node_at (ents w') x = Some y"
proof -
  from assms(1) obtain q where l: "lstat w l = Inr (q, None)"
    and w': "w' = w\<lparr>ents := AList.update q (Link t) (ents w)\<rparr>"
    by (auto simp: os_symlink_def split: sum.splits prod.splits option.splits if_splits)
  from l have "node_at (ents w) q = None"
    unfolding lstat_def by (rule namei_absent_look)
  with assms(2) have "x \<noteq> q" by auto
  with assms(2) w' show ?thesis
    by (cases "x = []") (simp_all add: node_at_update)
qed

lemma os_symlink_cwd: "os_symlink w t l = Inr w' \<Longrightarrow> cwd w' = cwd w"
  by (auto simp: os_symlink_def split: sum.splits prod.splits option.splits if_splits)

lemma link_and_report_is_dir:
  assumes "is_dir w p"
  shows "is_dir (link_and_report w l t d) p"
proof (cases "os_symlink w t l")
  case (Inl e)
  with assms show ?thesis
    by (simp add: link_and_report_def create_symlink_safe_def append_log_def showerror_def)
next
  case (Inr w')
  have "is_dir w' p"
    using assms os_symlink_look [OF Inr] os_symlink_cwd [OF Inr] by (rule is_dir_mono)
  with Inr show ?thesis
    by (simp add: link_and_report_def create_symlink_safe_def append_log_def)
qed

lemma link_step_raise:
  "ensure_dir w (joinpath target_root sub) = Inl e \<Longrightarrow>
     link_step ask w steamapps target_root sub = (w, Some e)"
  by (simp add: link_step_def Let_def)

lemma link_step_quiet:
  assumes "ensure_dir w (joinpath target_root sub) = Inr w1"
    and "classify w1 (joinpath steamapps sub) (joinpath target_root sub) = SymlinkCorrect \<or>
         classify w1 (joinpath steamapps sub) (joinpath target_root sub) = NonDirectoryFile \<or>
         (classify w1 (joinpath steamapps sub) (joinpath target_root sub) = SymlinkWrong \<and>
          \<not> ask ''Replace symlink'' (replace_question (joinpath steamapps sub))) \<or>
         (classify w1 (joinpath steamapps sub) (joinpath target_root sub) = NonEmptyDirectory \<and>
          \<not> ask ''Move contents?''
               (move_question (joinpath steamapps sub) (joinpath target_root sub)))"
  shows "\<exists>ev. link_step ask w steamapps target_root sub = (w1\<lparr>events := ev\<rparr>, None)"
  using assms
  by (auto simp: classify_def link_step_def Let_def confirm_def append_log_def showerror_def
      replace_question_def move_question_def split: if_splits)

lemma link_step_missing:
  assumes "ensure_dir w (joinpath target_root sub) = Inr w1"
    and "classify w1 (joinpath steamapps sub) (joinpath target_root sub) = Missing"
  shows "link_step ask w steamapps target_root sub =
           (link_and_report w1 (joinpath steamapps sub) (joinpath target_root sub) ''Linked: '',
            None)"
  using assms
  by (auto simp: classify_def link_step_def Let_def split: if_splits)

text \<open>
  C9, as amended. The step begins by ensuring the destination subdirectory. When that
  raises, the step raises the same and has done nothing. When it succeeds, the destination
  subdirectory is a directory when the link path is classified, and it still is one after
  the step, which then does not raise, whenever the link path is already right, is not a
  directory, is missing (whether the link could be made or not), or the person declines
  the question about a wrong link or a directory that is not empty.
\<close>

theorem destination_ensured_first:
  "(ensure_dir w (joinpath target_root sub) = Inl e \<longrightarrow>
      link_step ask w steamapps target_root sub = (w, Some e)) \<and>
   (ensure_dir w (joinpath target_root sub) = Inr w1 \<longrightarrow>
      is_dir w1 (joinpath target_root sub) \<and>
      (classify w1 (joinpath steamapps sub) (joinpath target_root sub) = SymlinkCorrect \<or>
       classify w1 (joinpath steamapps sub) (joinpath target_root sub) = NonDirectoryFile \<or>
       (classify w1 (joinpath steamapps sub) (joinpath target_root sub) = SymlinkWrong \<and>
        \<not> ask ''Replace symlink'' (replace_question (joinpath steamapps sub))) \<or>
       (classify w1 (joinpath steamapps sub) (joinpath target_root sub) = NonEmptyDirectory \<and>
        \<not> ask ''Move contents?''
             (move_question (joinpath steamapps sub) (joinpath target_root sub))) \<or>
       classify w1 (joinpath steamapps sub) (joinpath target_root sub) = Missing \<longrightarrow>
         snd (link_step ask w steamapps target_root sub) = None \<and>
         is_dir (fst (link_step ask w steamapps target_root sub)) (joinpath target_root sub)))"
proof (intro conjI impI)
  assume "ensure_dir w (joinpath target_root sub) = Inl e"
  then show "link_step ask w steamapps target_root sub = (w, Some e)"
    by (rule link_step_raise)
next
  assume e: "ensure_dir w (joinpath target_root sub) = Inr w1"
  then show d: "is_dir w1 (joinpath target_root sub)"
    by (simp add: ensure_dir_def mkdir_p_is_dir)
  assume c: "classify w1 (joinpath steamapps sub) (joinpath target_root sub) = SymlinkCorrect \<or>
       classify w1 (joinpath steamapps sub) (joinpath target_root sub) = NonDirectoryFile \<or>
       (classify w1 (joinpath steamapps sub) (joinpath target_root sub) = SymlinkWrong \<and>
        \<not> ask ''Replace symlink'' (replace_question (joinpath steamapps sub))) \<or>
       (classify w1 (joinpath steamapps sub) (joinpath target_root sub) = NonEmptyDirectory \<and>
        \<not> ask ''Move contents?''
             (move_question (joinpath steamapps sub) (joinpath target_root sub))) \<or>
       classify w1 (joinpath steamapps sub) (joinpath target_root sub) = Missing"
  have "snd (link_step ask w steamapps target_root sub) = None \<and>
         is_dir (fst (link_step ask w steamapps target_root sub)) (joinpath target_root sub)"
  proof (cases "classify w1 (joinpath steamapps sub) (joinpath target_root sub) = Missing")
    case True
    from link_step_missing [OF e True] link_and_report_is_dir [OF d]
    show ?thesis by simp
  next
    case False
    with c link_step_quiet [OF e, of steamapps ask] d show ?thesis by auto
  qed
  then show "snd (link_step ask w steamapps target_root sub) = None"
    and "is_dir (fst (link_step ask w steamapps target_root sub)) (joinpath target_root sub)"
    by simp_all
qed

theorem destination_ensured_first_witness:
  "ensure_dir w_fresh (joinpath (path_of ''/ssd/lib_symlink'') ''downloading'') =
     Inr w_fresh_ready \<and>
   classify w_fresh_ready (joinpath (path_of ''/lib/steamapps'') ''downloading'')
      (joinpath (path_of ''/ssd/lib_symlink'') ''downloading'') = Missing \<and>
   is_dir w_fresh_ready (joinpath (path_of ''/ssd/lib_symlink'') ''downloading'') \<and>
   snd (link_step (\<lambda>t m. True) w_fresh (path_of ''/lib/steamapps'') (path_of ''/ssd/lib_symlink'')
      ''downloading'') = None \<and>
   is_dir (fst (link_step (\<lambda>t m. True) w_fresh (path_of ''/lib/steamapps'')
                  (path_of ''/ssd/lib_symlink'') ''downloading''))
     (joinpath (path_of ''/ssd/lib_symlink'') ''downloading'')"
proof -
  have a: "ensure_dir w_fresh (joinpath (path_of ''/ssd/lib_symlink'') ''downloading'') =
     Inr w_fresh_ready"
    by code_simp
  have b: "classify w_fresh_ready (joinpath (path_of ''/lib/steamapps'') ''downloading'')
      (joinpath (path_of ''/ssd/lib_symlink'') ''downloading'') = Missing"
    by code_simp
  from destination_ensured_first [of w_fresh "path_of ''/ssd/lib_symlink''" "''downloading''"
      FileExistsError "\<lambda>t m. True" "path_of ''/lib/steamapps''" w_fresh_ready] a b
  show ?thesis by simp
qed

text \<open>
  C9 as stated fails: where a file stands at the destination subdirectory, ensuring it
  raises, the operation fails, and no directory is there afterwards.
\<close>

theorem destination_blocked_counterexample:
  "link_step (\<lambda>t m. True) w_blocked (path_of ''/lib/steamapps'') (path_of ''/ssd/lib_symlink'')
      ''downloading'' = (w_blocked, Some FileExistsError) \<and>
   \<not> is_dir w_blocked (joinpath (path_of ''/ssd/lib_symlink'') ''downloading'')"
  by code_simp

section \<open>Faults and the rest of the plan\<close>





section \<open>The plan\<close>

lemma split_sep_nonempty: "split_sep s \<noteq> []"
  by (induction s) (auto split: list.splits)











section \<open>Discovery\<close>














section \<open>The emptiness check\<close>



end
